theory Spec2Isabelle
  imports Complex_Main "HOL-Library.Word"
begin

section \<open>Splitting a tile archive by zoom level: a model of split\_mbtiles.py\<close>

text \<open>
  The theory embeds the functions of \<^verbatim>\<open>src/split_mbtiles.py\<close>: the zoom grouper
  (\<^verbatim>\<open>group_zooms_by_limit\<close>), the schema detector, the zoom enumeration and the size
  estimator, the metadata helpers and the two archive writers.

  Python integers are \<open>int\<close>. Every \<^verbatim>\<open>raise\<close> of the program and of the library
  calls it makes is a branch of the model: a function that can raise returns
  \<open>error + result\<close>.
\<close>

subsection \<open>Errors\<close>

datatype error =
    UnsupportedSchema    \<comment> \<open>the \<^verbatim>\<open>RuntimeError\<close> of line 44\<close>
  | OperationalError     \<comment> \<open>\<^verbatim>\<open>sqlite3.OperationalError\<close>\<close>
  | IntegrityError       \<comment> \<open>\<^verbatim>\<open>sqlite3.IntegrityError\<close>\<close>
  | ValueError           \<comment> \<open>\<^verbatim>\<open>min()\<close> or \<^verbatim>\<open>max()\<close> of an empty list, \<^verbatim>\<open>int()\<close> of NaN\<close>
  | OverflowError        \<comment> \<open>\<^verbatim>\<open>int()\<close> of an infinity, an integer too large for a float\<close>

text \<open>Sequencing: an exception ends the function; what it held is dropped.\<close>

definition bind_result :: "error + 'a \<Rightarrow> ('a \<Rightarrow> error + 'b) \<Rightarrow> error + 'b" where
  "bind_result r f = (case r of Inl e \<Rightarrow> Inl e | Inr x \<Rightarrow> f x)"

subsection \<open>Python floats\<close>

text \<open>
  A Python \<^verbatim>\<open>float\<close> is an IEEE double: a finite value, an infinity or NaN. The overhead
  factor comes unvalidated from \<^verbatim>\<open>argparse\<close> with \<^verbatim>\<open>type=float\<close>, which accepts
  \<^verbatim>\<open>inf\<close> and \<^verbatim>\<open>nan\<close>. Finite values are idealised as reals: the rounding of a finite
  result to the nearest double is not modelled, its overflow is. A finite result rounds to
  an infinity from \<open>2^1024 - 2^970\<close> on (half a unit in the last place above the largest
  double), and \<^verbatim>\<open>float(i)\<close> of an integer of that magnitude raises
  \<^verbatim>\<open>OverflowError\<close>.
\<close>

datatype py_float = Finite real | PosInf | NegInf | NaN

definition overflow_bound :: real where
  "overflow_bound = 2 ^ 1024 - 2 ^ 970"

definition round_finite :: "real \<Rightarrow> py_float" where
  "round_finite x =
     (if \<bar>x\<bar> < overflow_bound then Finite x else if 0 < x then PosInf else NegInf)"

text \<open>The conversion of the integer operand in \<^verbatim>\<open>int * float\<close>.\<close>

definition py_float_of_int :: "int \<Rightarrow> error + py_float" where
  "py_float_of_int i =
     (if \<bar>real_of_int i\<bar> < overflow_bound then Inr (Finite (real_of_int i))
      else Inl OverflowError)"

text \<open>IEEE multiplication: NaN is absorbing, zero times an infinity is NaN.\<close>

fun float_mul :: "py_float \<Rightarrow> py_float \<Rightarrow> py_float" where
  "float_mul NaN y = NaN"
| "float_mul x NaN = NaN"
| "float_mul (Finite a) (Finite b) = round_finite (a * b)"
| "float_mul (Finite a) PosInf = (if a = 0 then NaN else if 0 < a then PosInf else NegInf)"
| "float_mul (Finite a) NegInf = (if a = 0 then NaN else if 0 < a then NegInf else PosInf)"
| "float_mul PosInf (Finite b) = (if b = 0 then NaN else if 0 < b then PosInf else NegInf)"
| "float_mul NegInf (Finite b) = (if b = 0 then NaN else if 0 < b then NegInf else PosInf)"
| "float_mul PosInf PosInf = PosInf"
| "float_mul PosInf NegInf = NegInf"
| "float_mul NegInf PosInf = NegInf"
| "float_mul NegInf NegInf = PosInf"

text \<open>
  \<^verbatim>\<open>int(x)\<close> on a float drops the fractional part; it raises \<^verbatim>\<open>OverflowError\<close> on an
  infinity and \<^verbatim>\<open>ValueError\<close> on NaN.
\<close>

definition py_int :: "py_float \<Rightarrow> error + int" where
  "py_int x =
     (case x of
        Finite r \<Rightarrow> Inr (if 0 \<le> r then \<lfloor>r\<rfloor> else \<lceil>r\<rceil>)
      | PosInf \<Rightarrow> Inl OverflowError
      | NegInf \<Rightarrow> Inl OverflowError
      | NaN \<Rightarrow> Inl ValueError)"

subsection \<open>The zoom grouper\<close>

text \<open>\<^verbatim>\<open>d.get(k, default)\<close> on a dictionary.\<close>

definition dict_get :: "('k \<rightharpoonup> 'v) \<Rightarrow> 'k \<Rightarrow> 'v \<Rightarrow> 'v" where
  "dict_get d k dflt = (case d k of None \<Rightarrow> dflt | Some v \<Rightarrow> v)"

text \<open>Line 104: \<^verbatim>\<open>est = int(zoom_bytes.get(z, 0) * overhead_factor)\<close>.\<close>

definition zoom_est :: "(int \<rightharpoonup> int) \<Rightarrow> py_float \<Rightarrow> int \<Rightarrow> error + int" where
  "zoom_est zoom_bytes overhead_factor z =
     bind_result (py_float_of_int (dict_get zoom_bytes z 0)) (\<lambda>x.
       py_int (float_mul x overhead_factor))"

text \<open>
  The \<^verbatim>\<open>for z in zooms\<close> loop of lines 103--119, on the loop state
  \<open>(groups, current, current_est)\<close>; an exception of line 104 ends it.
\<close>

fun group_loop ::
  "(int \<rightharpoonup> int) \<Rightarrow> int \<Rightarrow> py_float \<Rightarrow> int list \<Rightarrow> int list list \<Rightarrow> int list \<Rightarrow> int
     \<Rightarrow> error + int list list \<times> int list \<times> int" where
  "group_loop zoom_bytes limit_bytes overhead_factor [] groups current current_est =
     Inr (groups, current, current_est)"
| "group_loop zoom_bytes limit_bytes overhead_factor (z # zs) groups current current_est =
     bind_result (zoom_est zoom_bytes overhead_factor z) (\<lambda>est.
       if current = [] then
         group_loop zoom_bytes limit_bytes overhead_factor zs groups [z] est
       else if current_est + est \<le> limit_bytes then
         group_loop zoom_bytes limit_bytes overhead_factor zs groups (current @ [z]) (current_est + est)
       else
         group_loop zoom_bytes limit_bytes overhead_factor zs (groups @ [current]) [z] est)"

text \<open>Lines 99--101 initialise the state; lines 121--123 close the last group.\<close>

definition group_zooms_by_limit ::
  "int list \<Rightarrow> (int \<rightharpoonup> int) \<Rightarrow> int \<Rightarrow> py_float \<Rightarrow> error + int list list" where
  "group_zooms_by_limit zooms zoom_bytes limit_bytes overhead_factor =
     bind_result (group_loop zoom_bytes limit_bytes overhead_factor zooms [] [] 0)
       (\<lambda>(groups, current, current_est).
          Inr (if current \<noteq> [] then groups @ [current] else groups))"

text \<open>The estimated size of a group: the sum of its members' contributions, each
  truncated to an integer before summing.\<close>

fun group_total :: "(int \<rightharpoonup> int) \<Rightarrow> py_float \<Rightarrow> int list \<Rightarrow> error + int" where
  "group_total zoom_bytes overhead_factor [] = Inr 0"
| "group_total zoom_bytes overhead_factor (z # zs) =
     bind_result (zoom_est zoom_bytes overhead_factor z) (\<lambda>est.
     bind_result (group_total zoom_bytes overhead_factor zs) (\<lambda>rest.
       Inr (est + rest)))"

text \<open>
  The inputs on which line 104 cannot raise for a finite factor \<open>f\<close>: every estimate of
  a listed level (0 where the level has none) and its product with \<open>f\<close> are within the
  range of a double.
\<close>

definition in_float_range :: "(int \<rightharpoonup> int) \<Rightarrow> real \<Rightarrow> int list \<Rightarrow> bool" where
  "in_float_range zoom_bytes f zooms =
     list_all (\<lambda>z. \<bar>real_of_int (dict_get zoom_bytes z 0)\<bar> < overflow_bound
                  \<and> \<bar>real_of_int (dict_get zoom_bytes z 0) * f\<bar> < overflow_bound) zooms"

text \<open>
  Invariant of the loop, used in the proofs: \<open>closed_groups\<close> is the list of groups the
  function would return from the current state, and \<open>packed\<close> says that every group is
  non-empty and has a total, that a group of more than one member fits the limit, and
  that each group plus the first member of its successor exceeds the limit.
\<close>

definition closed_groups :: "int list list \<Rightarrow> int list \<Rightarrow> int list list" where
  "closed_groups groups current = (if current \<noteq> [] then groups @ [current] else groups)"

definition packed :: "(int \<rightharpoonup> int) \<Rightarrow> int \<Rightarrow> py_float \<Rightarrow> int list list \<Rightarrow> bool" where
  "packed zb lb oh gs \<longleftrightarrow>
     (\<forall>i. i < length gs \<longrightarrow>
        gs ! i \<noteq> [] \<and> (\<exists>t. group_total zb oh (gs ! i) = Inr t \<and> (1 < length (gs ! i) \<longrightarrow> t \<le> lb)))
   \<and> (\<forall>i. Suc i < length gs \<longrightarrow>
        (\<exists>t e. group_total zb oh (gs ! i) = Inr t \<and> zoom_est zb oh (hd (gs ! Suc i)) = Inr e
               \<and> lb < t + e))"

subsection \<open>Archives and connections\<close>

text \<open>
  An archive is an SQLite database file. The model keeps the four relations the program
  names, each absent (\<open>None\<close>) or present with its rows in insertion order, and the names
  of any other tables. Columns carry the types of the MBTiles layout: zoom level, column
  and row are integers, \<open>tile_id\<close>, metadata names and values are text, and a blob is a
  byte string or SQL \<open>NULL\<close> (\<open>None\<close>), the one null the program provides for
  (\<^verbatim>\<open>r["bytes"] or 0\<close>). A source archive need not satisfy any uniqueness constraint.
\<close>

type_synonym blob = "8 word list"
type_synonym tiles_row = "int \<times> int \<times> int \<times> blob option"
type_synonym map_row = "int \<times> int \<times> int \<times> string"
type_synonym images_row = "string \<times> blob option"
type_synonym metadata_row = "string \<times> string"

record database =
  metadata_tbl :: "metadata_row list option"
  tiles_tbl :: "tiles_row list option"
  map_tbl :: "map_row list option"
  images_tbl :: "images_row list option"
  other_tables :: "string list"

definition empty_database :: database where
  "empty_database = \<lparr>metadata_tbl = None, tiles_tbl = None, map_tbl = None, images_tbl = None,
     other_tables = []\<rparr>"

text \<open>Column accessors.\<close>

definition tile_zoom :: "tiles_row \<Rightarrow> int" where "tile_zoom r = fst r"
definition tile_key :: "tiles_row \<Rightarrow> int \<times> int \<times> int" where
  "tile_key r = (fst r, fst (snd r), fst (snd (snd r)))"
definition tile_data :: "tiles_row \<Rightarrow> blob option" where "tile_data r = snd (snd (snd r))"
definition map_zoom :: "map_row \<Rightarrow> int" where "map_zoom r = fst r"
definition map_key :: "map_row \<Rightarrow> int \<times> int \<times> int" where
  "map_key r = (fst r, fst (snd r), fst (snd (snd r)))"
definition map_tile_id :: "map_row \<Rightarrow> string" where "map_tile_id r = snd (snd (snd r))"
definition image_tile_id :: "images_row \<Rightarrow> string" where "image_tile_id r = fst r"
definition image_data :: "images_row \<Rightarrow> blob option" where "image_data r = snd r"

text \<open>
  A \<^verbatim>\<open>sqlite3.Connection\<close>: the database as the connection sees it, and whether a
  transaction is open (\<^verbatim>\<open>Connection.in_transaction\<close>). The program never sets
  \<^verbatim>\<open>isolation_level\<close>, so the module's default transaction control applies: before an
  \<^verbatim>\<open>INSERT\<close>, \<^verbatim>\<open>UPDATE\<close>, \<^verbatim>\<open>DELETE\<close> or \<^verbatim>\<open>REPLACE\<close> it opens a transaction
  implicitly when none is open, and the transaction stays open until
  \<^verbatim>\<open>commit()\<close>; other statements (\<^verbatim>\<open>SELECT\<close>, \<^verbatim>\<open>PRAGMA\<close>, \<^verbatim>\<open>CREATE\<close>) open none.
  SQLite itself refuses \<^verbatim>\<open>BEGIN\<close> while a transaction is open and \<^verbatim>\<open>VACUUM\<close> inside
  one; the module raises \<^verbatim>\<open>OperationalError\<close> ("cannot start a transaction within a
  transaction", "cannot VACUUM from within a transaction"). The source uses f-strings, so
  it runs on Python 3.6 or later, where a \<^verbatim>\<open>CREATE\<close> statement no longer commits an
  open transaction. What an interrupted writer leaves in the file at \<^verbatim>\<open>out_path\<close> is
  not modelled: with \<^verbatim>\<open>journal_mode=OFF\<close> SQLite leaves it undefined, and the writers
  return an archive only when they return normally.
\<close>

record connection =
  db :: database
  in_transaction :: bool

text \<open>Lines 15--24. \<^verbatim>\<open>connect_rw\<close> on a path that holds no file creates an empty database.\<close>

definition connect_ro :: "database \<Rightarrow> connection" where
  "connect_ro d = \<lparr>db = d, in_transaction = False\<rparr>"

definition connect_rw :: "database \<Rightarrow> connection" where
  "connect_rw d = \<lparr>db = d, in_transaction = False\<rparr>"

text \<open>Lines 27--31: a row of \<^verbatim>\<open>sqlite_master\<close> with \<^verbatim>\<open>type='table'\<close> and this name.\<close>

definition table_exists :: "connection \<Rightarrow> string \<Rightarrow> bool" where
  "table_exists conn name =
     (if name = ''metadata'' then metadata_tbl (db conn) \<noteq> None
      else if name = ''tiles'' then tiles_tbl (db conn) \<noteq> None
      else if name = ''map'' then map_tbl (db conn) \<noteq> None
      else if name = ''images'' then images_tbl (db conn) \<noteq> None
      else name \<in> set (other_tables (db conn)))"

subsection \<open>Schema detection, zoom enumeration, size estimation\<close>

datatype schema_type = Tiles | MapImages

text \<open>Lines 34--46.\<close>

definition get_mbtiles_schema_type :: "connection \<Rightarrow> error + schema_type" where
  "get_mbtiles_schema_type conn =
     (if table_exists conn ''tiles'' then Inr Tiles
      else if table_exists conn ''map'' \<and> table_exists conn ''images'' then Inr MapImages
      else Inl UnsupportedSchema)"

text \<open>
  Lines 54--59: \<^verbatim>\<open>SELECT DISTINCT zoom_level ... ORDER BY zoom_level\<close>. A statement that
  names a missing table raises \<^verbatim>\<open>OperationalError\<close>.
\<close>

definition get_zoom_levels :: "connection \<Rightarrow> schema_type \<Rightarrow> error + int list" where
  "get_zoom_levels conn schema =
     (case schema of
        Tiles \<Rightarrow>
          (case tiles_tbl (db conn) of
             None \<Rightarrow> Inl OperationalError
           | Some rows \<Rightarrow> Inr (sort (remdups (map tile_zoom rows))))
      | MapImages \<Rightarrow>
          (case map_tbl (db conn) of
             None \<Rightarrow> Inl OperationalError
           | Some rows \<Rightarrow> Inr (sort (remdups (map map_zoom rows)))))"

text \<open>
  SQL \<^verbatim>\<open>LENGTH\<close> of a blob is its number of bytes, and \<^verbatim>\<open>NULL\<close> for \<^verbatim>\<open>NULL\<close>;
  \<^verbatim>\<open>SUM\<close> adds the non-null values of a group and is \<^verbatim>\<open>NULL\<close> when there is none.
  \<^verbatim>\<open>x or 0\<close> in Python replaces \<^verbatim>\<open>None\<close> (and 0) by 0.
\<close>

definition sql_length :: "blob option \<Rightarrow> int option" where
  "sql_length b = map_option (\<lambda>bytes. int (length bytes)) b"

definition sql_sum :: "int option list \<Rightarrow> int option" where
  "sql_sum xs =
     (if list_all (\<lambda>x. x = None) xs then None
      else Some (sum_list (map (\<lambda>x. case x of None \<Rightarrow> 0 | Some n \<Rightarrow> n) xs)))"

definition or_zero :: "int option \<Rightarrow> int" where
  "or_zero x = (case x of None \<Rightarrow> 0 | Some n \<Rightarrow> n)"

text \<open>
  \<^verbatim>\<open>SELECT k, SUM(v) ... GROUP BY k ORDER BY k\<close> over a list of \<open>(k, v)\<close> rows, and the
  dictionary comprehension of lines 75 and 86 over the result.
\<close>

definition group_sums :: "(int \<times> int option) list \<Rightarrow> (int \<times> int option) list" where
  "group_sums kvs =
     map (\<lambda>k. (k, sql_sum (map snd (filter (\<lambda>kv. fst kv = k) kvs))))
       (sort (remdups (map fst kvs)))"

definition bytes_dict :: "(int \<times> int option) list \<Rightarrow> (int \<rightharpoonup> int)" where
  "bytes_dict rows = map_of (map (\<lambda>r. (fst r, or_zero (snd r))) rows)"

text \<open>The inner join of lines 78--84: one row per pair of a coordinate row and an image row
  with the same \<open>tile_id\<close>.\<close>

definition map_join_images :: "map_row list \<Rightarrow> images_row list \<Rightarrow> (int \<times> int option) list" where
  "map_join_images ms imgs =
     concat (map (\<lambda>m. map (\<lambda>i. (map_zoom m, sql_length (image_data i)))
                        (filter (\<lambda>i. image_tile_id i = map_tile_id m) imgs)) ms)"

text \<open>Lines 62--86.\<close>

definition estimate_zoom_sizes_bytes :: "connection \<Rightarrow> schema_type \<Rightarrow> error + (int \<rightharpoonup> int)" where
  "estimate_zoom_sizes_bytes conn schema =
     (case schema of
        Tiles \<Rightarrow>
          (case tiles_tbl (db conn) of
             None \<Rightarrow> Inl OperationalError
           | Some rows \<Rightarrow>
               Inr (bytes_dict (group_sums (map (\<lambda>r. (tile_zoom r, sql_length (tile_data r))) rows))))
      | MapImages \<Rightarrow>
          (case map_tbl (db conn) of
             None \<Rightarrow> Inl OperationalError
           | Some ms \<Rightarrow>
               (case images_tbl (db conn) of
                  None \<Rightarrow> Inl OperationalError
                | Some imgs \<Rightarrow> Inr (bytes_dict (group_sums (map_join_images ms imgs))))))"


subsection \<open>Statements executed on the destination\<close>

text \<open>
  Each \<^verbatim>\<open>execute\<close> either raises or leaves a changed connection. A statement names the
  tables of the database its own connection has open: the program never attaches a second
  database to a connection, so on \<^verbatim>\<open>dst\<close> the names \<^verbatim>\<open>tiles\<close>, \<^verbatim>\<open>map\<close> and
  \<^verbatim>\<open>images\<close> are the destination's tables. The destination's tables are created by
  \<^verbatim>\<open>create_schema_tiles\<close> and \<^verbatim>\<open>create_schema_map_images\<close> with their unique index
  or primary key, which every later insert has to respect.
\<close>

definition begin_implicit :: "connection \<Rightarrow> connection" where
  "begin_implicit c = c\<lparr>in_transaction := True\<rparr>"

definition execute_begin :: "connection \<Rightarrow> error + connection" where
  "execute_begin c =
     (if in_transaction c then Inl OperationalError else Inr (c\<lparr>in_transaction := True\<rparr>))"

definition commit :: "connection \<Rightarrow> connection" where
  "commit c = c\<lparr>in_transaction := False\<rparr>"

text \<open>\<^verbatim>\<open>CREATE TABLE IF NOT EXISTS metadata (name TEXT, value TEXT)\<close>\<close>

definition execute_create_metadata :: "connection \<Rightarrow> error + connection" where
  "execute_create_metadata c =
     Inr (c\<lparr>db := (db c)\<lparr>metadata_tbl :=
            Some (case metadata_tbl (db c) of None \<Rightarrow> [] | Some rows \<Rightarrow> rows)\<rparr>\<rparr>)"

text \<open>\<^verbatim>\<open>DELETE FROM metadata\<close>\<close>

definition execute_delete_metadata :: "connection \<Rightarrow> error + connection" where
  "execute_delete_metadata c =
     (case metadata_tbl (db c) of
        None \<Rightarrow> Inl OperationalError
      | Some rows \<Rightarrow> Inr (begin_implicit (c\<lparr>db := (db c)\<lparr>metadata_tbl := Some []\<rparr>\<rparr>)))"

text \<open>\<^verbatim>\<open>INSERT INTO metadata(name, value) VALUES(?, ?)\<close>\<close>

definition execute_insert_metadata :: "connection \<Rightarrow> metadata_row \<Rightarrow> error + connection" where
  "execute_insert_metadata c row =
     (case metadata_tbl (db c) of
        None \<Rightarrow> Inl OperationalError
      | Some rows \<Rightarrow> Inr (begin_implicit (c\<lparr>db := (db c)\<lparr>metadata_tbl := Some (rows @ [row])\<rparr>\<rparr>)))"

text \<open>\<^verbatim>\<open>DELETE FROM metadata WHERE name=?\<close>\<close>

definition execute_delete_metadata_named :: "connection \<Rightarrow> string \<Rightarrow> error + connection" where
  "execute_delete_metadata_named c name =
     (case metadata_tbl (db c) of
        None \<Rightarrow> Inl OperationalError
      | Some rows \<Rightarrow>
          Inr (begin_implicit
                 (c\<lparr>db := (db c)\<lparr>metadata_tbl := Some (filter (\<lambda>r. fst r \<noteq> name) rows)\<rparr>\<rparr>)))"

text \<open>The loop of lines 130--131 over the rows of the source's metadata.\<close>

fun insert_metadata_rows :: "metadata_row list \<Rightarrow> connection \<Rightarrow> error + connection" where
  "insert_metadata_rows [] dst = Inr dst"
| "insert_metadata_rows (row # rows) dst =
     bind_result (execute_insert_metadata dst row) (insert_metadata_rows rows)"

text \<open>Lines 126--131.\<close>

definition copy_metadata :: "connection \<Rightarrow> connection \<Rightarrow> error + connection" where
  "copy_metadata src dst =
     bind_result (execute_create_metadata dst) (\<lambda>dst.
     bind_result (execute_delete_metadata dst) (\<lambda>dst.
       if table_exists src ''metadata'' then
         (case metadata_tbl (db src) of
            None \<Rightarrow> Inl OperationalError
          | Some rows \<Rightarrow> insert_metadata_rows rows dst)
       else Inr dst))"

text \<open>Lines 134--136.\<close>

definition upsert_metadata :: "connection \<Rightarrow> string \<Rightarrow> string \<Rightarrow> error + connection" where
  "upsert_metadata dst name val =
     bind_result (execute_delete_metadata_named dst name) (\<lambda>dst.
       execute_insert_metadata dst (name, val))"

text \<open>
  Lines 139--148. \<^verbatim>\<open>CREATE UNIQUE INDEX\<close> fails on a table whose rows repeat a key.
\<close>

definition execute_create_tiles :: "connection \<Rightarrow> error + connection" where
  "execute_create_tiles c =
     Inr (c\<lparr>db := (db c)\<lparr>tiles_tbl :=
            Some (case tiles_tbl (db c) of None \<Rightarrow> [] | Some rows \<Rightarrow> rows)\<rparr>\<rparr>)"

definition execute_create_tile_index :: "connection \<Rightarrow> error + connection" where
  "execute_create_tile_index c =
     (case tiles_tbl (db c) of
        None \<Rightarrow> Inl OperationalError
      | Some rows \<Rightarrow> if distinct (map tile_key rows) then Inr c else Inl IntegrityError)"

definition create_schema_tiles :: "connection \<Rightarrow> error + connection" where
  "create_schema_tiles dst = bind_result (execute_create_tiles dst) execute_create_tile_index"

text \<open>Lines 151--167.\<close>

definition execute_create_map :: "connection \<Rightarrow> error + connection" where
  "execute_create_map c =
     Inr (c\<lparr>db := (db c)\<lparr>map_tbl :=
            Some (case map_tbl (db c) of None \<Rightarrow> [] | Some rows \<Rightarrow> rows)\<rparr>\<rparr>)"

definition execute_create_images :: "connection \<Rightarrow> error + connection" where
  "execute_create_images c =
     Inr (c\<lparr>db := (db c)\<lparr>images_tbl :=
            Some (case images_tbl (db c) of None \<Rightarrow> [] | Some rows \<Rightarrow> rows)\<rparr>\<rparr>)"

definition execute_create_map_index :: "connection \<Rightarrow> error + connection" where
  "execute_create_map_index c =
     (case map_tbl (db c) of
        None \<Rightarrow> Inl OperationalError
      | Some rows \<Rightarrow> if distinct (map map_key rows) then Inr c else Inl IntegrityError)"

definition create_schema_map_images :: "connection \<Rightarrow> error + connection" where
  "create_schema_map_images dst =
     bind_result (execute_create_map dst) (\<lambda>dst.
     bind_result (execute_create_images dst) execute_create_map_index)"

text \<open>
  Lines 194--201, executed on \<^verbatim>\<open>dst\<close>:
  \<^verbatim>\<open>INSERT INTO tiles(...) SELECT ... FROM tiles WHERE zoom_level IN (...)\<close>.
  Both occurrences of \<^verbatim>\<open>tiles\<close> are the table of the connection the statement runs on.
\<close>

definition execute_insert_tiles_select :: "connection \<Rightarrow> int list \<Rightarrow> error + connection" where
  "execute_insert_tiles_select c zooms =
     (case tiles_tbl (db c) of
        None \<Rightarrow> Inl OperationalError
      | Some rows \<Rightarrow>
          (let new = rows @ filter (\<lambda>r. tile_zoom r \<in> set zooms) rows in
           if distinct (map tile_key new)
           then Inr (begin_implicit (c\<lparr>db := (db c)\<lparr>tiles_tbl := Some new\<rparr>\<rparr>))
           else Inl IntegrityError))"

text \<open>Lines 233--241, executed on \<^verbatim>\<open>dst\<close>: the same statement on \<^verbatim>\<open>map\<close>.\<close>

definition execute_insert_map_select :: "connection \<Rightarrow> int list \<Rightarrow> error + connection" where
  "execute_insert_map_select c zooms =
     (case map_tbl (db c) of
        None \<Rightarrow> Inl OperationalError
      | Some rows \<Rightarrow>
          (let new = rows @ filter (\<lambda>r. map_zoom r \<in> set zooms) rows in
           if distinct (map map_key new)
           then Inr (begin_implicit (c\<lparr>db := (db c)\<lparr>map_tbl := Some new\<rparr>\<rparr>))
           else Inl IntegrityError))"

text \<open>
  Lines 246--253, executed on \<^verbatim>\<open>dst\<close>: \<^verbatim>\<open>INSERT OR IGNORE INTO images\<close> of the rows of
  \<^verbatim>\<open>images\<close> whose \<open>tile_id\<close> occurs in \<^verbatim>\<open>map\<close>. A row whose \<open>tile_id\<close> is already a
  key of the table is skipped.
\<close>

definition insert_or_ignore :: "images_row list \<Rightarrow> images_row list \<Rightarrow> images_row list" where
  "insert_or_ignore new tbl =
     fold (\<lambda>row t. if image_tile_id row \<in> set (map image_tile_id t) then t else t @ [row]) new tbl"

definition execute_insert_images_select :: "connection \<Rightarrow> error + connection" where
  "execute_insert_images_select c =
     (case images_tbl (db c) of
        None \<Rightarrow> Inl OperationalError
      | Some imgs \<Rightarrow>
          (case map_tbl (db c) of
             None \<Rightarrow> Inl OperationalError
           | Some ms \<Rightarrow>
               (let selected = filter (\<lambda>i. image_tile_id i \<in> set (remdups (map map_tile_id ms))) imgs in
                Inr (begin_implicit
                       (c\<lparr>db := (db c)\<lparr>images_tbl := Some (insert_or_ignore selected imgs)\<rparr>\<rparr>)))))"

text \<open>
  Lines 170--173. The size of the compacted file is a function \<open>getsize\<close> of the database
  it stores; the storage layout is not modelled. \<^verbatim>\<open>VACUUM\<close> does not change the rows.
\<close>

definition vacuum_and_size :: "(database \<Rightarrow> int) \<Rightarrow> connection \<Rightarrow> error + int" where
  "vacuum_and_size getsize conn =
     (if in_transaction conn then Inl OperationalError else Inr (getsize (db conn)))"

subsection \<open>The writers\<close>

text \<open>\<^verbatim>\<open>str(n)\<close> on an integer, and \<^verbatim>\<open>min\<close>, \<^verbatim>\<open>max\<close> on a list.\<close>

definition digit_char :: "nat \<Rightarrow> char" where
  "digit_char d = ''0123456789'' ! d"

fun str_nat :: "nat \<Rightarrow> string" where
  "str_nat n = (if n < 10 then [digit_char n] else str_nat (n div 10) @ [digit_char (n mod 10)])"

definition py_str :: "int \<Rightarrow> string" where
  "py_str i = (if i < 0 then CHR ''-'' # str_nat (nat (- i)) else str_nat (nat i))"

definition py_min :: "int list \<Rightarrow> error + int" where
  "py_min xs = (case xs of [] \<Rightarrow> Inl ValueError | x # rest \<Rightarrow> Inr (fold min rest x))"

definition py_max :: "int list \<Rightarrow> error + int" where
  "py_max xs = (case xs of [] \<Rightarrow> Inl ValueError | x # rest \<Rightarrow> Inr (fold max rest x))"

text \<open>What a writer prints (lines 210 and 262), and what it leaves: the size it returns, the
  lines printed and the archive at \<^verbatim>\<open>out_path\<close>.\<close>

datatype message = OverLimitWarning int int

type_synonym written = "int \<times> message list \<times> database"

text \<open>
  \<^verbatim>\<open>split_tiles_schema\<close>, in three parts. The caller has removed any file at
  \<^verbatim>\<open>out_path\<close> (lines 316--317), so \<^verbatim>\<open>connect_rw\<close> opens an empty database. The
  \<^verbatim>\<open>PRAGMA\<close> statements of lines 181--183 change neither the rows nor the transaction
  state. Lines 177--190:
\<close>

definition split_tiles_schema_prepare :: "database \<Rightarrow> int list \<Rightarrow> error + connection" where
  "split_tiles_schema_prepare src_db zooms =
     (let src = connect_ro src_db; dst = connect_rw empty_database in
      bind_result (copy_metadata src dst) (\<lambda>dst.
      bind_result (create_schema_tiles dst) (\<lambda>dst.
      bind_result (py_min zooms) (\<lambda>zmin.
      bind_result (py_max zooms) (\<lambda>zmax.
      bind_result (upsert_metadata dst ''minzoom'' (py_str zmin)) (\<lambda>dst.
        upsert_metadata dst ''maxzoom'' (py_str zmax)))))))"

text \<open>Lines 192--202: \<^verbatim>\<open>BEGIN\<close>, the copy statement, \<^verbatim>\<open>commit()\<close>.\<close>

definition split_tiles_schema_copy :: "connection \<Rightarrow> int list \<Rightarrow> error + connection" where
  "split_tiles_schema_copy dst zooms =
     bind_result (execute_begin dst) (\<lambda>dst.
     bind_result (execute_insert_tiles_select dst zooms) (\<lambda>dst.
       Inr (commit dst)))"

text \<open>Lines 204--211: compact, measure, close, warn, return.\<close>

definition split_tiles_schema_finish ::
  "(database \<Rightarrow> int) \<Rightarrow> connection \<Rightarrow> int \<Rightarrow> error + written" where
  "split_tiles_schema_finish getsize dst limit_bytes =
     bind_result (vacuum_and_size getsize dst) (\<lambda>size.
       Inr (size, (if size > limit_bytes then [OverLimitWarning size limit_bytes] else []), db dst))"

definition split_tiles_schema ::
  "(database \<Rightarrow> int) \<Rightarrow> database \<Rightarrow> int list \<Rightarrow> int \<Rightarrow> error + written" where
  "split_tiles_schema getsize src_db zooms limit_bytes =
     bind_result (split_tiles_schema_prepare src_db zooms) (\<lambda>dst.
     bind_result (split_tiles_schema_copy dst zooms) (\<lambda>dst.
       split_tiles_schema_finish getsize dst limit_bytes))"

text \<open>\<^verbatim>\<open>split_map_images_schema\<close>, likewise. Lines 215--227:\<close>

definition split_map_images_schema_prepare :: "database \<Rightarrow> int list \<Rightarrow> error + connection" where
  "split_map_images_schema_prepare src_db zooms =
     (let src = connect_ro src_db; dst = connect_rw empty_database in
      bind_result (copy_metadata src dst) (\<lambda>dst.
      bind_result (create_schema_map_images dst) (\<lambda>dst.
      bind_result (py_min zooms) (\<lambda>zmin.
      bind_result (py_max zooms) (\<lambda>zmax.
      bind_result (upsert_metadata dst ''minzoom'' (py_str zmin)) (\<lambda>dst.
        upsert_metadata dst ''maxzoom'' (py_str zmax)))))))"

text \<open>Lines 229--254: two transactions, each opened by an explicit \<^verbatim>\<open>BEGIN\<close>.\<close>

definition split_map_images_schema_copy :: "connection \<Rightarrow> int list \<Rightarrow> error + connection" where
  "split_map_images_schema_copy dst zooms =
     bind_result (execute_begin dst) (\<lambda>dst.
     bind_result (execute_insert_map_select dst zooms) (\<lambda>dst.
     bind_result (execute_begin (commit dst)) (\<lambda>dst.
     bind_result (execute_insert_images_select dst) (\<lambda>dst.
       Inr (commit dst)))))"

text \<open>Lines 256--263.\<close>

definition split_map_images_schema_finish ::
  "(database \<Rightarrow> int) \<Rightarrow> connection \<Rightarrow> int \<Rightarrow> error + written" where
  "split_map_images_schema_finish getsize dst limit_bytes =
     bind_result (vacuum_and_size getsize dst) (\<lambda>size.
       Inr (size, (if size > limit_bytes then [OverLimitWarning size limit_bytes] else []), db dst))"

definition split_map_images_schema ::
  "(database \<Rightarrow> int) \<Rightarrow> database \<Rightarrow> int list \<Rightarrow> int \<Rightarrow> error + written" where
  "split_map_images_schema getsize src_db zooms limit_bytes =
     bind_result (split_map_images_schema_prepare src_db zooms) (\<lambda>dst.
     bind_result (split_map_images_schema_copy dst zooms) (\<lambda>dst.
       split_map_images_schema_finish getsize dst limit_bytes))"

subsection \<open>Auxiliary notions for the statements\<close>

text \<open>The rows of the source's metadata relation (none when the relation is absent), and
  the metadata a writer is to leave: every source entry other than \<open>minzoom\<close> and
  \<open>maxzoom\<close>, in order, then one \<open>minzoom\<close> and one \<open>maxzoom\<close> entry for the group.\<close>

definition source_metadata :: "database \<Rightarrow> metadata_row list" where
  "source_metadata d = (case metadata_tbl d of None \<Rightarrow> [] | Some rows \<Rightarrow> rows)"

definition written_metadata :: "database \<Rightarrow> int list \<Rightarrow> metadata_row list" where
  "written_metadata src_db zooms =
     filter (\<lambda>r. fst r \<noteq> ''minzoom'' \<and> fst r \<noteq> ''maxzoom'') (source_metadata src_db)
       @ [(''minzoom'', py_str (Min (set zooms))), (''maxzoom'', py_str (Max (set zooms)))]"

text \<open>The payload bytes of a blob: \<^verbatim>\<open>LENGTH(tile_data)\<close>, with \<^verbatim>\<open>NULL\<close> counted as 0.\<close>

definition blob_bytes :: "blob option \<Rightarrow> int" where
  "blob_bytes b = (case b of None \<Rightarrow> 0 | Some bytes \<Rightarrow> int (length bytes))"

text \<open>Example archives: one tile at zoom 0; one coordinate row at zoom 0 with its image;
  an archive with both layouts, shared and null blobs; one coordinate row whose image is
  missing.\<close>

definition example_tiles_archive :: database where
  "example_tiles_archive =
     \<lparr>metadata_tbl = Some [(''name'', ''demo''), (''minzoom'', ''3'')],
      tiles_tbl = Some [(0, 0, 0, Some [1, 2])],
      map_tbl = None, images_tbl = None, other_tables = []\<rparr>"

definition example_map_images_archive :: database where
  "example_map_images_archive =
     \<lparr>metadata_tbl = Some [(''name'', ''demo'')], tiles_tbl = None,
      map_tbl = Some [(0, 0, 0, ''a'')], images_tbl = Some [(''a'', Some [1, 2, 3])],
      other_tables = []\<rparr>"

definition example_estimate_archive :: database where
  "example_estimate_archive =
     \<lparr>metadata_tbl = None,
      tiles_tbl = Some [(0, 0, 0, Some [1, 2]), (0, 1, 0, None), (1, 0, 0, Some [7])],
      map_tbl = Some [(0, 0, 0, ''a''), (0, 1, 0, ''a''), (1, 0, 0, ''b'')],
      images_tbl = Some [(''a'', Some [1, 2, 3]), (''b'', None)],
      other_tables = []\<rparr>"

definition example_dangling_archive :: database where
  "example_dangling_archive =
     \<lparr>metadata_tbl = None, tiles_tbl = None,
      map_tbl = Some [(0, 0, 0, ''a'')], images_tbl = Some [], other_tables = []\<rparr>"

section \<open>Properties\<close>

subsection \<open>The loop invariant of the grouper\<close>


lemma group_total_snoc:
  "group_total zb oh g = Inr t \<Longrightarrow> zoom_est zb oh z = Inr e \<Longrightarrow>
   group_total zb oh (g @ [z]) = Inr (t + e)"
  by (induction g arbitrary: t) (auto simp: bind_result_def split: sum.splits)

lemma group_total_single: "zoom_est zb oh z = Inr e \<Longrightarrow> group_total zb oh [z] = Inr e"
  by (simp add: bind_result_def)


lemma packed_open: "zoom_est zb oh z = Inr e \<Longrightarrow> packed zb lb oh [[z]]"
  by (simp add: packed_def bind_result_def)

lemma packed_extend:
  assumes pk: "packed zb lb oh (gs @ [c])" and ne: "c \<noteq> []"
    and tot: "group_total zb oh c = Inr t" and e: "zoom_est zb oh z = Inr e"
    and fits: "t + e \<le> lb"
  shows "packed zb lb oh (gs @ [c @ [z]])"
proof -
  have tot': "group_total zb oh (c @ [z]) = Inr (t + e)"
    using tot e by (rule group_total_snoc)
  have hd: "hd (c @ [z]) = hd c" using ne by simp
  have old: "(gs @ [c @ [z]]) ! i = (gs @ [c]) ! i" if "i < length gs" for i
    using that by (simp add: nth_append)
  have new: "(gs @ [c @ [z]]) ! length gs = c @ [z]" "(gs @ [c]) ! length gs = c"
    by simp_all
  have a: "(gs @ [c @ [z]]) ! i \<noteq> [] \<and>
        (\<exists>t. group_total zb oh ((gs @ [c @ [z]]) ! i) = Inr t \<and>
             (1 < length ((gs @ [c @ [z]]) ! i) \<longrightarrow> t \<le> lb))"
    if i: "i < length (gs @ [c @ [z]])" for i
  proof (cases "i < length gs")
    case True
    then have "i < length (gs @ [c])" by simp
    with pk have "(gs @ [c]) ! i \<noteq> [] \<and>
        (\<exists>t. group_total zb oh ((gs @ [c]) ! i) = Inr t \<and>
             (1 < length ((gs @ [c]) ! i) \<longrightarrow> t \<le> lb))"
      unfolding packed_def by blast
    then show ?thesis by (simp add: old [OF True])
  next
    case False
    with i have "i = length gs" by simp
    then show ?thesis using tot' fits by (simp add: new)
  qed
  have b: "\<exists>t e. group_total zb oh ((gs @ [c @ [z]]) ! i) = Inr t \<and>
        zoom_est zb oh (hd ((gs @ [c @ [z]]) ! Suc i)) = Inr e \<and> lb < t + e"
    if i: "Suc i < length (gs @ [c @ [z]])" for i
  proof -
    from i have il: "i < length gs" and "Suc i < length (gs @ [c])" by simp_all
    with pk have o: "\<exists>t e. group_total zb oh ((gs @ [c]) ! i) = Inr t \<and>
          zoom_est zb oh (hd ((gs @ [c]) ! Suc i)) = Inr e \<and> lb < t + e"
      unfolding packed_def by blast
    show ?thesis
    proof (cases "Suc i < length gs")
      case True
      from o show ?thesis by (simp add: old [OF il] old [OF True])
    next
      case False
      with il have "Suc i = length gs" by simp
      with o show ?thesis by (simp add: old [OF il] new hd)
    qed
  qed
  from a b show ?thesis unfolding packed_def by blast
qed

lemma packed_close:
  assumes pk: "packed zb lb oh xs" and ne: "xs \<noteq> []"
    and tot: "group_total zb oh (last xs) = Inr t" and e: "zoom_est zb oh z = Inr e"
    and over: "lb < t + e"
  shows "packed zb lb oh (xs @ [[z]])"
proof -
  have old: "(xs @ [[z]]) ! i = xs ! i" if "i < length xs" for i
    using that by (rule nth_append_left)
  have new: "(xs @ [[z]]) ! length xs = [z]" by simp
  have a: "(xs @ [[z]]) ! i \<noteq> [] \<and>
        (\<exists>t. group_total zb oh ((xs @ [[z]]) ! i) = Inr t \<and>
             (1 < length ((xs @ [[z]]) ! i) \<longrightarrow> t \<le> lb))"
    if i: "i < length (xs @ [[z]])" for i
  proof (cases "i < length xs")
    case True
    with pk have "xs ! i \<noteq> [] \<and>
        (\<exists>t. group_total zb oh (xs ! i) = Inr t \<and> (1 < length (xs ! i) \<longrightarrow> t \<le> lb))"
      unfolding packed_def by blast
    then show ?thesis by (simp add: old [OF True])
  next
    case False
    with i have "i = length xs" by simp
    then show ?thesis using e by (simp add: new bind_result_def)
  qed
  have b: "\<exists>t e. group_total zb oh ((xs @ [[z]]) ! i) = Inr t \<and>
        zoom_est zb oh (hd ((xs @ [[z]]) ! Suc i)) = Inr e \<and> lb < t + e"
    if i: "Suc i < length (xs @ [[z]])" for i
  proof (cases "Suc i < length xs")
    case True
    then have il: "i < length xs" by simp
    from pk True have "\<exists>t e. group_total zb oh (xs ! i) = Inr t \<and>
        zoom_est zb oh (hd (xs ! Suc i)) = Inr e \<and> lb < t + e"
      unfolding packed_def by blast
    then show ?thesis by (simp add: old [OF il] old [OF True])
  next
    case False
    with i have si: "Suc i = length xs" by simp
    then have il: "i < length xs" by simp
    from si have "i = length xs - 1" by simp
    with ne have "xs ! i = last xs" by (simp add: last_conv_nth)
    with tot e over show ?thesis
      by (simp add: old [OF il] si new)
  qed
  from a b show ?thesis unfolding packed_def by blast
qed

lemma group_loop_inv:
  assumes "group_loop zb lb oh zs groups current ce = Inr (groups', current', ce')"
    and "current \<noteq> [] \<longrightarrow> group_total zb oh current = Inr ce"
    and "current = [] \<longrightarrow> groups = []"
    and "packed zb lb oh (closed_groups groups current)"
  shows "packed zb lb oh (closed_groups groups' current')
       \<and> concat (closed_groups groups' current') = concat (closed_groups groups current) @ zs"
  using assms
proof (induction zs arbitrary: groups current ce)
  case Nil
  then show ?case by simp
next
  case (Cons z zs)
  from Cons.prems(1) obtain e where e: "zoom_est zb oh z = Inr e"
    by (cases "zoom_est zb oh z") (simp_all add: bind_result_def)
  show ?case
  proof (cases "current = []")
    case True
    with Cons.prems have g: "groups = []" by simp
    from Cons.prems(1) True e
    have run: "group_loop zb lb oh zs groups [z] e = Inr (groups', current', ce')"
      by (simp add: bind_result_def)
    have "packed zb lb oh (closed_groups groups [z])"
      using g e by (simp add: closed_groups_def packed_open)
    from Cons.IH [OF run _ _ this] show ?thesis
      using True g e by (simp add: closed_groups_def bind_result_def)
  next
    case False
    with Cons.prems have ce: "group_total zb oh current = Inr ce" by simp
    from Cons.prems(4) False have pk: "packed zb lb oh (groups @ [current])"
      by (simp add: closed_groups_def)
    show ?thesis
    proof (cases "ce + e \<le> lb")
      case True
      from Cons.prems(1) False True e
      have run: "group_loop zb lb oh zs groups (current @ [z]) (ce + e) = Inr (groups', current', ce')"
        by (simp add: bind_result_def)
      have "packed zb lb oh (closed_groups groups (current @ [z]))"
        using packed_extend [OF pk False ce e True] by (simp add: closed_groups_def)
      from Cons.IH [OF run _ _ this] show ?thesis
        using False group_total_snoc [OF ce e] by (simp add: closed_groups_def)
    next
      case over: False
      from Cons.prems(1) False over e
      have run: "group_loop zb lb oh zs (groups @ [current]) [z] e = Inr (groups', current', ce')"
        by (simp add: bind_result_def)
      from over have gt: "lb < ce + e" by simp
      have "packed zb lb oh (closed_groups (groups @ [current]) [z])"
        using packed_close [OF pk _ _ e gt] ce by (simp add: closed_groups_def)
      from Cons.IH [OF run _ _ this] show ?thesis
        using False e by (simp add: closed_groups_def bind_result_def)
    qed
  qed
qed

lemma group_zooms_packed:
  assumes "group_zooms_by_limit zooms zb lb oh = Inr gs"
  shows "packed zb lb oh gs \<and> concat gs = zooms"
proof -
  from assms obtain groups current ce where
    run: "group_loop zb lb oh zooms [] [] 0 = Inr (groups, current, ce)"
    and gs: "gs = closed_groups groups current"
    by (auto simp: group_zooms_by_limit_def bind_result_def closed_groups_def
        split: sum.splits)
  have "packed zb lb oh (closed_groups [] [])"
    by (simp add: closed_groups_def packed_def)
  from group_loop_inv [OF run _ _ this] show ?thesis
    using gs by (simp add: closed_groups_def)
qed

lemma group_loop_returns:
  assumes "\<forall>z \<in> set zs. \<exists>e. zoom_est zb oh z = Inr e"
  shows "\<exists>r. group_loop zb lb oh zs groups current ce = Inr r"
  using assms
proof (induction zs arbitrary: groups current ce)
  case Nil
  then show ?case by simp
next
  case (Cons z zs)
  then obtain e where e: "zoom_est zb oh z = Inr e" by auto
  from Cons.prems have rest: "\<forall>z \<in> set zs. \<exists>e. zoom_est zb oh z = Inr e" by simp
  show ?case
    using e Cons.IH [OF rest] by (simp add: bind_result_def)
qed

lemma group_zooms_returns:
  assumes "\<forall>z \<in> set zooms. \<exists>e. zoom_est zb oh z = Inr e"
  shows "\<exists>gs. group_zooms_by_limit zooms zb lb oh = Inr gs"
proof -
  from group_loop_returns [OF assms, of lb "[]" "[]" 0]
  obtain r where "group_loop zb lb oh zooms [] [] 0 = Inr r" by blast
  then show ?thesis
    by (cases r) (simp add: group_zooms_by_limit_def bind_result_def)
qed

lemma zoom_est_finite:
  assumes "\<bar>real_of_int (dict_get zb z 0)\<bar> < overflow_bound"
    and "\<bar>real_of_int (dict_get zb z 0) * f\<bar> < overflow_bound"
  shows "\<exists>e. zoom_est zb (Finite f) z = Inr e"
  using assms
  by (simp add: zoom_est_def py_float_of_int_def bind_result_def round_finite_def py_int_def)

lemma in_float_range_returns:
  assumes "in_float_range zb f zooms"
  shows "\<exists>gs. group_zooms_by_limit zooms zb lb (Finite f) = Inr gs"
proof (rule group_zooms_returns)
  show "\<forall>z \<in> set zooms. \<exists>e. zoom_est zb (Finite f) z = Inr e"
    using assms by (auto simp: in_float_range_def list_all_iff intro: zoom_est_finite)
qed




lemma group_zooms_nonempty:
  assumes "group_zooms_by_limit zooms zb lb oh = Inr gs" "g \<in> set gs"
  shows "g \<noteq> []"
proof -
  from assms(2) obtain i where "i < length gs" "gs ! i = g"
    by (auto simp: in_set_conv_nth)
  with group_zooms_packed [OF assms(1)] show ?thesis
    unfolding packed_def by blast
qed

lemma concat_unique_index:
  assumes d: "distinct (concat gs)" and ne: "\<forall>g \<in> set gs. g \<noteq> []"
    and z: "z \<in> set (concat gs)"
  shows "\<exists>!i. i < length gs \<and> z \<in> set (gs ! i)"
proof -
  from z obtain g where "g \<in> set gs" "z \<in> set g"
    by auto
  then obtain i where i: "i < length gs" "z \<in> set (gs ! i)"
    by (metis in_set_conv_nth)
  have "j = i" if j: "j < length gs" "z \<in> set (gs ! j)" for j
  proof (rule ccontr)
    assume neq: "j \<noteq> i"
    from ne have "[] \<notin> set gs" by blast
    then have "removeAll [] gs = gs" by (rule removeAll_id)
    with d have dg: "distinct gs" by (simp add: distinct_concat_iff)
    with neq i j have "gs ! j \<noteq> gs ! i" by (simp add: nth_eq_iff_index_eq)
    moreover have "gs ! j \<in> set gs" "gs ! i \<in> set gs" using i j by simp_all
    ultimately have "set (gs ! j) \<inter> set (gs ! i) = {}"
      using d by (simp add: distinct_concat_iff)
    with i j show False by blast
  qed
  with i show ?thesis by blast
qed

lemma sorted_wrt_concat_member:
  "sorted_wrt P (concat gs) \<Longrightarrow> g \<in> set gs \<Longrightarrow> sorted_wrt P g"
  by (induction gs) (auto simp: sorted_wrt_append)


subsection \<open>The scenario of the specification\<close>

text \<open>
  C6. With zoom levels 0..3, raw estimates \<open>{0:1000, 1:2000, 2:50000000, 3:200}\<close>, overhead
  1.25 and a limit of 10,000,000 bytes the grouper returns the three groups
  \<open>[0,1]\<close>, \<open>[2]\<close>, \<open>[3]\<close>, in that order.
\<close>

theorem group_zooms_scenario:
  "group_zooms_by_limit [0, 1, 2, 3]
     [0 \<mapsto> 1000, 1 \<mapsto> 2000, 2 \<mapsto> 50000000, 3 \<mapsto> 200] 10000000 (Finite 1.25)
   = Inr [[0, 1], [2], [3]]"
  by (simp add: group_zooms_by_limit_def zoom_est_def dict_get_def py_int_def
      py_float_of_int_def round_finite_def overflow_bound_def bind_result_def)

subsection \<open>Packing bound, partition, missing estimates\<close>

lemma example_groups:
  "group_zooms_by_limit [5, 7, 9] [5 \<mapsto> 10, 7 \<mapsto> 20, 9 \<mapsto> 100] 50 (Finite (3/2))
     = Inr [[5, 7], [9]]"
  by (simp add: group_zooms_by_limit_def zoom_est_def dict_get_def py_int_def
      py_float_of_int_def round_finite_def overflow_bound_def bind_result_def)

lemma example_ests:
  "zoom_est [5 \<mapsto> 10, 7 \<mapsto> 20, 9 \<mapsto> 100] (Finite (3/2)) 5 = Inr 15"
  "zoom_est [5 \<mapsto> 10, 7 \<mapsto> 20, 9 \<mapsto> 100] (Finite (3/2)) 7 = Inr 30"
  "zoom_est [5 \<mapsto> 10, 7 \<mapsto> 20, 9 \<mapsto> 100] (Finite (3/2)) 9 = Inr 150"
  by (simp_all add: zoom_est_def dict_get_def py_int_def
      py_float_of_int_def round_finite_def overflow_bound_def bind_result_def)

lemma example_in_range:
  "in_float_range [5 \<mapsto> 10, 7 \<mapsto> 20, 9 \<mapsto> 100] (3/2) [5, 7, 9]"
  by (simp add: in_float_range_def dict_get_def overflow_bound_def)

text \<open>
  C3. The grouper returns for every finite overhead factor and every estimates mapping
  within the range of a double. Whenever it returns, for whatever zoom levels, estimates,
  limit and factor (so in particular for ascending distinct levels, a positive limit and a
  factor of at least 1): the sum of the truncated contributions
  \<open>int(estimate * overhead_factor)\<close> of a group with more than one member is at most
  \<open>limit_bytes\<close>; and wherever a group is followed by another, adding the first zoom level
  of the following group to it would have exceeded \<open>limit_bytes\<close>.
\<close>

theorem group_zooms_packing_bound:
  "(in_float_range zoom_bytes f zooms \<longrightarrow>
      (\<exists>gs. group_zooms_by_limit zooms zoom_bytes limit_bytes (Finite f) = Inr gs))
   \<and> (group_zooms_by_limit zooms zoom_bytes limit_bytes overhead_factor = Inr gs \<longrightarrow>
        (\<forall>g \<in> set gs. 1 < length g \<longrightarrow>
           (\<exists>t. group_total zoom_bytes overhead_factor g = Inr t \<and> t \<le> limit_bytes))
      \<and> (\<forall>i. Suc i < length gs \<longrightarrow>
           gs ! Suc i \<noteq> [] \<and>
           (\<exists>t e. group_total zoom_bytes overhead_factor (gs ! i) = Inr t
                 \<and> zoom_est zoom_bytes overhead_factor (hd (gs ! Suc i)) = Inr e
                 \<and> limit_bytes < t + e)))"
proof (intro conjI impI)
  assume "in_float_range zoom_bytes f zooms"
  then show "\<exists>gs. group_zooms_by_limit zooms zoom_bytes limit_bytes (Finite f) = Inr gs"
    by (rule in_float_range_returns)
next
  assume r: "group_zooms_by_limit zooms zoom_bytes limit_bytes overhead_factor = Inr gs"
  from group_zooms_packed [OF r]
  have pk: "packed zoom_bytes limit_bytes overhead_factor gs" by blast
  show "\<forall>g \<in> set gs. 1 < length g \<longrightarrow>
      (\<exists>t. group_total zoom_bytes overhead_factor g = Inr t \<and> t \<le> limit_bytes)"
  proof
    fix g assume "g \<in> set gs"
    then obtain i where "i < length gs" "gs ! i = g"
      by (auto simp: in_set_conv_nth)
    with pk show "1 < length g \<longrightarrow>
        (\<exists>t. group_total zoom_bytes overhead_factor g = Inr t \<and> t \<le> limit_bytes)"
      unfolding packed_def by blast
  qed
next
  assume r: "group_zooms_by_limit zooms zoom_bytes limit_bytes overhead_factor = Inr gs"
  from group_zooms_packed [OF r]
  have pk: "packed zoom_bytes limit_bytes overhead_factor gs" by blast
  show "\<forall>i. Suc i < length gs \<longrightarrow>
           gs ! Suc i \<noteq> [] \<and>
           (\<exists>t e. group_total zoom_bytes overhead_factor (gs ! i) = Inr t
                 \<and> zoom_est zoom_bytes overhead_factor (hd (gs ! Suc i)) = Inr e
                 \<and> limit_bytes < t + e)"
    using pk unfolding packed_def by blast
qed

theorem group_zooms_packing_bound_witness:
  "in_float_range [5 \<mapsto> 10, 7 \<mapsto> 20, 9 \<mapsto> 100] (3/2) [5, 7, 9]
   \<and> group_zooms_by_limit [5, 7, 9] [5 \<mapsto> 10, 7 \<mapsto> 20, 9 \<mapsto> 100] 50 (Finite (3/2))
       = Inr [[5, 7], [9]]
   \<and> 1 < length [5, 7 :: int]
   \<and> (\<exists>t. group_total [5 \<mapsto> 10, 7 \<mapsto> 20, 9 \<mapsto> 100] (Finite (3/2)) [5, 7] = Inr t \<and> t \<le> 50)
   \<and> group_total [5 \<mapsto> 10, 7 \<mapsto> 20, 9 \<mapsto> 100] (Finite (3/2)) [5, 7] = Inr 45
   \<and> Suc 0 < length [[5, 7], [9 :: int]]
   \<and> (\<exists>t e. group_total [5 \<mapsto> 10, 7 \<mapsto> 20, 9 \<mapsto> 100] (Finite (3/2)) [5, 7] = Inr t
          \<and> zoom_est [5 \<mapsto> 10, 7 \<mapsto> 20, 9 \<mapsto> 100] (Finite (3/2)) 9 = Inr e \<and> 50 < t + e)
   \<and> zoom_est [5 \<mapsto> 10, 7 \<mapsto> 20, 9 \<mapsto> 100] (Finite (3/2)) 9 = Inr 150"
proof -
  let ?zb = "[5 \<mapsto> 10, 7 \<mapsto> 20, 9 \<mapsto> (100::int)] :: int \<rightharpoonup> int"
  note b = group_zooms_packing_bound
    [of ?zb "3/2" "[5, 7, 9]" 50 "Finite (3/2)" "[[5, 7], [9]]"]
  from b example_groups
  have g: "\<forall>g \<in> set [[5, 7], [9 :: int]]. 1 < length g \<longrightarrow>
           (\<exists>t. group_total ?zb (Finite (3/2)) g = Inr t \<and> t \<le> 50)"
    and n: "\<forall>i. Suc i < length [[5, 7], [9 :: int]] \<longrightarrow>
           [[5, 7], [9 :: int]] ! Suc i \<noteq> [] \<and>
           (\<exists>t e. group_total ?zb (Finite (3/2)) ([[5, 7], [9]] ! i) = Inr t
                 \<and> zoom_est ?zb (Finite (3/2)) (hd ([[5, 7], [9]] ! Suc i)) = Inr e
                 \<and> 50 < t + e)"
    by blast+
  from g have g1: "\<exists>t. group_total ?zb (Finite (3/2)) [5, 7] = Inr t \<and> t \<le> 50"
    by simp
  from n have "Suc 0 < length [[5, 7], [9 :: int]] \<longrightarrow>
           (\<exists>t e. group_total ?zb (Finite (3/2)) ([[5, 7], [9]] ! 0) = Inr t
                 \<and> zoom_est ?zb (Finite (3/2)) (hd ([[5, 7], [9]] ! Suc 0)) = Inr e
                 \<and> 50 < t + e)"
    by blast
  then have n1: "\<exists>t e. group_total ?zb (Finite (3/2)) [5, 7] = Inr t
          \<and> zoom_est ?zb (Finite (3/2)) 9 = Inr e \<and> 50 < t + e"
    by simp
  have t45: "group_total ?zb (Finite (3/2)) [5, 7] = Inr 45"
    by (simp add: example_ests bind_result_def)
  from example_in_range example_groups g1 n1 t45 example_ests(3)
  show ?thesis by simp
qed

text \<open>
  C4. The grouper returns for every finite overhead factor and every estimates mapping
  within the range of a double, and whenever it returns, its result is an ordered
  partition of its input: the groups concatenated in order are the input list, every
  group is non-empty, every zoom level of a duplicate-free input lies in exactly one
  group, and the groups of an ascending input are ascending.
\<close>

theorem group_zooms_partition:
  "(in_float_range zoom_bytes f zooms \<longrightarrow>
      (\<exists>gs. group_zooms_by_limit zooms zoom_bytes limit_bytes (Finite f) = Inr gs))
   \<and> (group_zooms_by_limit zooms zoom_bytes limit_bytes overhead_factor = Inr gs \<longrightarrow>
        concat gs = zooms
      \<and> (\<forall>g \<in> set gs. g \<noteq> [])
      \<and> (distinct zooms \<longrightarrow>
           (\<forall>z \<in> set zooms. \<exists>!i. i < length gs \<and> z \<in> set (gs ! i)))
      \<and> (sorted_wrt (<) zooms \<longrightarrow> (\<forall>g \<in> set gs. sorted_wrt (<) g)))"
proof -
  have ret: "\<exists>gs. group_zooms_by_limit zooms zoom_bytes limit_bytes (Finite f) = Inr gs"
    if "in_float_range zoom_bytes f zooms"
    using that by (rule in_float_range_returns)
  have part: "concat gs = zooms
      \<and> (\<forall>g \<in> set gs. g \<noteq> [])
      \<and> (distinct zooms \<longrightarrow>
           (\<forall>z \<in> set zooms. \<exists>!i. i < length gs \<and> z \<in> set (gs ! i)))
      \<and> (sorted_wrt (<) zooms \<longrightarrow> (\<forall>g \<in> set gs. sorted_wrt (<) g))"
    if r: "group_zooms_by_limit zooms zoom_bytes limit_bytes overhead_factor = Inr gs"
  proof -
    have c: "concat gs = zooms" using group_zooms_packed [OF r] by blast
    have ne: "\<forall>g \<in> set gs. g \<noteq> []" using group_zooms_nonempty [OF r] by blast
    have "\<forall>z \<in> set zooms. \<exists>!i. i < length gs \<and> z \<in> set (gs ! i)" if "distinct zooms"
      using concat_unique_index [of gs] ne that c by simp
    moreover have "\<forall>g \<in> set gs. sorted_wrt (<) g" if "sorted_wrt (<) zooms"
      using sorted_wrt_concat_member [of "(<)" gs] that c by simp
    ultimately show ?thesis using c ne by blast
  qed
  from ret part show ?thesis by blast
qed

theorem group_zooms_partition_witness:
  "in_float_range [5 \<mapsto> 10, 7 \<mapsto> 20, 9 \<mapsto> 100] (3/2) [5, 7, 9]
   \<and> group_zooms_by_limit [5, 7, 9] [5 \<mapsto> 10, 7 \<mapsto> 20, 9 \<mapsto> 100] 50 (Finite (3/2))
       = Inr [[5, 7], [9]]
   \<and> concat [[5, 7], [9]] = [5, 7, 9 :: int]
   \<and> distinct [5, 7, 9 :: int] \<and> sorted_wrt (<) [5, 7, 9 :: int]
   \<and> (\<exists>!i. i < length [[5, 7], [9 :: int]] \<and> 9 \<in> set ([[5, 7], [9 :: int]] ! i))
   \<and> sorted_wrt (<) [5, 7 :: int]"
proof -
  note p = group_zooms_partition
    [of "[5 \<mapsto> 10, 7 \<mapsto> 20, 9 \<mapsto> 100]" "3/2" "[5, 7, 9]" 50 "Finite (3/2)" "[[5, 7], [9]]"]
  have d: "distinct [5, 7, 9 :: int]" by simp
  have s: "sorted_wrt (<) [5, 7, 9 :: int]" by simp
  from p example_groups d
  have u: "\<forall>z \<in> set [5, 7, 9 :: int]. \<exists>!i. i < length [[5, 7], [9 :: int]]
      \<and> z \<in> set ([[5, 7], [9 :: int]] ! i)"
    by blast
  then have u9: "\<exists>!i. i < length [[5, 7], [9 :: int]] \<and> 9 \<in> set ([[5, 7], [9 :: int]] ! i)"
    by simp
  from p example_groups s have "\<forall>g \<in> set [[5, 7], [9 :: int]]. sorted_wrt (<) g"
    by blast
  then have s57: "sorted_wrt (<) [5, 7 :: int]" by simp
  from example_in_range example_groups d s u9 s57 show ?thesis by simp
qed




subsection \<open>Schema detection\<close>

text \<open>
  C7. Schema detection classifies an archive as Tiles exactly when the \<open>tiles\<close> relation
  exists, otherwise as MapImages exactly when both \<open>map\<close> and \<open>images\<close> exist, and fails
  with the unsupported-schema error in every remaining case. It issues only \<^verbatim>\<open>SELECT\<close>
  statements: the model's function returns a value and no changed connection.
\<close>

theorem schema_detection:
  "get_mbtiles_schema_type conn =
     (if tiles_tbl (db conn) \<noteq> None then Inr Tiles
      else if map_tbl (db conn) \<noteq> None \<and> images_tbl (db conn) \<noteq> None then Inr MapImages
      else Inl UnsupportedSchema)"
  by (simp add: get_mbtiles_schema_type_def table_exists_def)

subsection \<open>Zoom enumeration and size estimation\<close>

lemma or_zero_fun: "or_zero = (\<lambda>x. case x of None \<Rightarrow> 0 | Some n \<Rightarrow> n)"
  by (rule ext) (simp add: or_zero_def)

lemma sum_list_all_None:
  "list_all (\<lambda>x. x = None) xs \<Longrightarrow>
     sum_list (map (\<lambda>x. case x of None \<Rightarrow> 0 | Some n \<Rightarrow> n) xs) = (0::int)"
  by (induction xs) simp_all

lemma or_zero_sql_sum: "or_zero (sql_sum xs) = sum_list (map or_zero xs)"
  unfolding or_zero_fun sql_sum_def
  by (simp add: sum_list_all_None)

lemma bytes_dict_group_sums:
  "bytes_dict (group_sums kvs) z =
     (if z \<in> fst ` set kvs
      then Some (sum_list (map or_zero (map snd (filter (\<lambda>kv. fst kv = z) kvs))))
      else None)"
proof -
  have "bytes_dict (group_sums kvs) =
      map_of (map (\<lambda>k. (k, or_zero (sql_sum (map snd (filter (\<lambda>kv. fst kv = k) kvs)))))
        (sort (remdups (map fst kvs))))"
    by (simp add: bytes_dict_def group_sums_def comp_def)
  also have "\<dots> = (Some \<circ> (\<lambda>k. or_zero (sql_sum (map snd (filter (\<lambda>kv. fst kv = k) kvs)))))
      |` set (sort (remdups (map fst kvs)))"
    by (rule map_of_map_restrict)
  finally have "bytes_dict (group_sums kvs) z =
      ((Some \<circ> (\<lambda>k. or_zero (sql_sum (map snd (filter (\<lambda>kv. fst kv = k) kvs)))))
      |` set (sort (remdups (map fst kvs)))) z"
    by (rule fun_cong)
  then show ?thesis
    by (simp add: restrict_map_def or_zero_sql_sum)
qed

lemma dom_bytes_dict_group_sums: "dom (bytes_dict (group_sums kvs)) = fst ` set kvs"
  by (auto simp: bytes_dict_group_sums dom_def split: if_splits)

lemma set_map_join_images_fst:
  "fst ` set (map_join_images ms imgs) =
     {z. \<exists>m \<in> set ms. map_zoom m = z \<and> map_tile_id m \<in> image_tile_id ` set imgs}"
proof (intro set_eqI iffI)
  fix z assume "z \<in> fst ` set (map_join_images ms imgs)"
  then obtain m i where "m \<in> set ms" "i \<in> set imgs" "image_tile_id i = map_tile_id m"
      "z = map_zoom m"
    by (auto simp: map_join_images_def)
  then have "map_zoom m = z \<and> map_tile_id m \<in> image_tile_id ` set imgs"
    by (metis imageI)
  with \<open>m \<in> set ms\<close>
  show "z \<in> {z. \<exists>m \<in> set ms. map_zoom m = z \<and> map_tile_id m \<in> image_tile_id ` set imgs}"
    by blast
next
  fix z assume "z \<in> {z. \<exists>m \<in> set ms. map_zoom m = z \<and> map_tile_id m \<in> image_tile_id ` set imgs}"
  then obtain m i where mi: "m \<in> set ms" "i \<in> set imgs" "image_tile_id i = map_tile_id m"
      "z = map_zoom m"
    by (auto simp: image_iff)
  then have "(z, sql_length (image_data i)) \<in> set (map_join_images ms imgs)"
    by (force simp: map_join_images_def)
  then show "z \<in> fst ` set (map_join_images ms imgs)"
    by (metis fst_conv imageI)
qed

lemma tiles_group_values:
  "map snd (filter (\<lambda>kv. fst kv = z) (map (\<lambda>r. (tile_zoom r, sql_length (tile_data r))) rows))
     = map (\<lambda>r. sql_length (tile_data r)) (filter (\<lambda>r. tile_zoom r = z) rows)"
  by (induction rows) auto

lemma or_zero_sql_length: "or_zero (sql_length b) = blob_bytes b"
  by (cases b) (simp_all add: or_zero_def sql_length_def blob_bytes_def)

lemma join_group_values:
  "map (\<lambda>kv. or_zero (snd kv)) (filter (\<lambda>kv. fst kv = z) (map_join_images ms imgs))
     = concat (map (\<lambda>m. map (\<lambda>i. blob_bytes (image_data i))
                            (filter (\<lambda>i. image_tile_id i = map_tile_id m) imgs))
                 (filter (\<lambda>m. map_zoom m = z) ms))"
proof (induction ms)
  case Nil
  then show ?case by (simp add: map_join_images_def)
next
  case (Cons m ms)
  have split: "map_join_images (m # ms) imgs =
      map (\<lambda>i. (map_zoom m, sql_length (image_data i)))
        (filter (\<lambda>i. image_tile_id i = map_tile_id m) imgs) @ map_join_images ms imgs"
    by (simp add: map_join_images_def)
  show ?case
  proof (cases "map_zoom m = z")
    case True
    then show ?thesis
      using Cons.IH by (simp add: split filter_map comp_def or_zero_sql_length)
  next
    case False
    then show ?thesis
      using Cons.IH by (simp add: split filter_map comp_def)
  qed
qed

lemma estimate_tiles:
  assumes "tiles_tbl (db conn) = Some rows"
  shows "get_zoom_levels conn Tiles = Inr (sort (remdups (map tile_zoom rows)))"
    and "estimate_zoom_sizes_bytes conn Tiles =
           Inr (bytes_dict (group_sums (map (\<lambda>r. (tile_zoom r, sql_length (tile_data r))) rows)))"
    and "dom (bytes_dict (group_sums (map (\<lambda>r. (tile_zoom r, sql_length (tile_data r))) rows)))
           = tile_zoom ` set rows"
    and "z \<in> tile_zoom ` set rows \<Longrightarrow>
         bytes_dict (group_sums (map (\<lambda>r. (tile_zoom r, sql_length (tile_data r))) rows)) z
           = Some (sum_list (map (\<lambda>r. blob_bytes (tile_data r)) (filter (\<lambda>r. tile_zoom r = z) rows)))"
proof -
  show "get_zoom_levels conn Tiles = Inr (sort (remdups (map tile_zoom rows)))"
    using assms by (simp add: get_zoom_levels_def)
  show "estimate_zoom_sizes_bytes conn Tiles =
      Inr (bytes_dict (group_sums (map (\<lambda>r. (tile_zoom r, sql_length (tile_data r))) rows)))"
    using assms by (simp add: estimate_zoom_sizes_bytes_def)
  show "dom (bytes_dict (group_sums (map (\<lambda>r. (tile_zoom r, sql_length (tile_data r))) rows)))
      = tile_zoom ` set rows"
    by (simp add: dom_bytes_dict_group_sums image_image)
  show "bytes_dict (group_sums (map (\<lambda>r. (tile_zoom r, sql_length (tile_data r))) rows)) z
      = Some (sum_list (map (\<lambda>r. blob_bytes (tile_data r)) (filter (\<lambda>r. tile_zoom r = z) rows)))"
    if "z \<in> tile_zoom ` set rows"
    using that
    by (simp add: bytes_dict_group_sums image_image tiles_group_values comp_def or_zero_sql_length)
qed

lemma estimate_map_images:
  assumes "map_tbl (db conn) = Some ms" "images_tbl (db conn) = Some imgs"
  shows "get_zoom_levels conn MapImages = Inr (sort (remdups (map map_zoom ms)))"
    and "estimate_zoom_sizes_bytes conn MapImages =
           Inr (bytes_dict (group_sums (map_join_images ms imgs)))"
    and "dom (bytes_dict (group_sums (map_join_images ms imgs)))
           = {z. \<exists>m \<in> set ms. map_zoom m = z \<and> map_tile_id m \<in> image_tile_id ` set imgs}"
    and "z \<in> dom (bytes_dict (group_sums (map_join_images ms imgs))) \<Longrightarrow>
         bytes_dict (group_sums (map_join_images ms imgs)) z
           = Some (sum_list (concat (map (\<lambda>m. map (\<lambda>i. blob_bytes (image_data i))
                        (filter (\<lambda>i. image_tile_id i = map_tile_id m) imgs))
                 (filter (\<lambda>m. map_zoom m = z) ms))))"
proof -
  show "get_zoom_levels conn MapImages = Inr (sort (remdups (map map_zoom ms)))"
    using assms by (simp add: get_zoom_levels_def)
  show "estimate_zoom_sizes_bytes conn MapImages =
      Inr (bytes_dict (group_sums (map_join_images ms imgs)))"
    using assms by (simp add: estimate_zoom_sizes_bytes_def)
  show d: "dom (bytes_dict (group_sums (map_join_images ms imgs)))
      = {z. \<exists>m \<in> set ms. map_zoom m = z \<and> map_tile_id m \<in> image_tile_id ` set imgs}"
    by (simp add: dom_bytes_dict_group_sums set_map_join_images_fst)
  show "bytes_dict (group_sums (map_join_images ms imgs)) z
      = Some (sum_list (concat (map (\<lambda>m. map (\<lambda>i. blob_bytes (image_data i))
                        (filter (\<lambda>i. image_tile_id i = map_tile_id m) imgs))
                 (filter (\<lambda>m. map_zoom m = z) ms))))"
    if "z \<in> dom (bytes_dict (group_sums (map_join_images ms imgs)))"
  proof -
    from that have "z \<in> fst ` set (map_join_images ms imgs)"
      by (simp add: dom_bytes_dict_group_sums)
    then have "bytes_dict (group_sums (map_join_images ms imgs)) z =
        Some (sum_list (map or_zero (map snd (filter (\<lambda>kv. fst kv = z) (map_join_images ms imgs)))))"
      by (simp add: bytes_dict_group_sums)
    also have "map or_zero (map snd (filter (\<lambda>kv. fst kv = z) (map_join_images ms imgs)))
        = map (\<lambda>kv. or_zero (snd kv)) (filter (\<lambda>kv. fst kv = z) (map_join_images ms imgs))"
      by (simp add: comp_def)
    finally show ?thesis by (simp add: join_group_values)
  qed
qed

text \<open>
  C5, as the program has it. For a Tiles archive the estimate mapping has an entry for
  exactly the zoom levels that zoom enumeration returns. For a MapImages archive it has an
  entry for exactly those enumerated levels at which some coordinate row's \<open>tile_id\<close> names
  an image row, hence for every enumerated level when every coordinate row names an image.
  In both, an entry is the sum of the blob lengths of its level, a null blob counting 0.
\<close>

theorem estimate_entries:
  "(tiles_tbl (db conn) = Some rows \<longrightarrow>
      (\<exists>zs est. get_zoom_levels conn Tiles = Inr zs
         \<and> estimate_zoom_sizes_bytes conn Tiles = Inr est
         \<and> dom est = set zs
         \<and> (\<forall>z \<in> set zs. est z =
              Some (sum_list (map (\<lambda>r. blob_bytes (tile_data r))
                                (filter (\<lambda>r. tile_zoom r = z) rows))))))
   \<and> (map_tbl (db conn) = Some ms \<and> images_tbl (db conn) = Some imgs \<longrightarrow>
      (\<exists>zs est. get_zoom_levels conn MapImages = Inr zs
         \<and> estimate_zoom_sizes_bytes conn MapImages = Inr est
         \<and> dom est = {z \<in> set zs. \<exists>m \<in> set ms. map_zoom m = z
                                     \<and> map_tile_id m \<in> image_tile_id ` set imgs}
         \<and> ((\<forall>m \<in> set ms. map_tile_id m \<in> image_tile_id ` set imgs) \<longrightarrow> dom est = set zs)
         \<and> (\<forall>z \<in> dom est. est z =
              Some (sum_list (concat (map (\<lambda>m. map (\<lambda>i. blob_bytes (image_data i))
                        (filter (\<lambda>i. image_tile_id i = map_tile_id m) imgs))
                 (filter (\<lambda>m. map_zoom m = z) ms)))))))
   \<and> blob_bytes None = 0"
proof (intro conjI impI)
  assume t: "tiles_tbl (db conn) = Some rows"
  let ?zs = "sort (remdups (map tile_zoom rows))"
  let ?est = "bytes_dict (group_sums (map (\<lambda>r. (tile_zoom r, sql_length (tile_data r))) rows))"
  have "get_zoom_levels conn Tiles = Inr ?zs" "estimate_zoom_sizes_bytes conn Tiles = Inr ?est"
    using estimate_tiles(1,2) [OF t] by simp_all
  moreover have "dom ?est = set ?zs"
    using estimate_tiles(3) [OF t] by simp
  moreover have "\<forall>z \<in> set ?zs. ?est z =
      Some (sum_list (map (\<lambda>r. blob_bytes (tile_data r)) (filter (\<lambda>r. tile_zoom r = z) rows)))"
    using estimate_tiles(4) [OF t] by simp
  ultimately show "\<exists>zs est. get_zoom_levels conn Tiles = Inr zs
         \<and> estimate_zoom_sizes_bytes conn Tiles = Inr est
         \<and> dom est = set zs
         \<and> (\<forall>z \<in> set zs. est z =
              Some (sum_list (map (\<lambda>r. blob_bytes (tile_data r))
                                (filter (\<lambda>r. tile_zoom r = z) rows))))"
    by blast
next
  assume "map_tbl (db conn) = Some ms \<and> images_tbl (db conn) = Some imgs"
  then have m: "map_tbl (db conn) = Some ms" and i: "images_tbl (db conn) = Some imgs"
    by simp_all
  let ?zs = "sort (remdups (map map_zoom ms))"
  let ?est = "bytes_dict (group_sums (map_join_images ms imgs))"
  let ?hit = "{z. \<exists>m \<in> set ms. map_zoom m = z \<and> map_tile_id m \<in> image_tile_id ` set imgs}"
  have g: "get_zoom_levels conn MapImages = Inr ?zs"
    and e: "estimate_zoom_sizes_bytes conn MapImages = Inr ?est"
    using estimate_map_images(1,2) [OF m i] by simp_all
  have d: "dom ?est = ?hit"
    using estimate_map_images(3) [OF m i] .
  have d1: "dom ?est = {z \<in> set ?zs. \<exists>m \<in> set ms. map_zoom m = z
      \<and> map_tile_id m \<in> image_tile_id ` set imgs}"
    unfolding d by auto
  have d2: "(\<forall>m \<in> set ms. map_tile_id m \<in> image_tile_id ` set imgs) \<longrightarrow> dom ?est = set ?zs"
    unfolding d by auto
  have v: "\<forall>z \<in> dom ?est. ?est z =
      Some (sum_list (concat (map (\<lambda>m. map (\<lambda>i. blob_bytes (image_data i))
                        (filter (\<lambda>i. image_tile_id i = map_tile_id m) imgs))
                 (filter (\<lambda>m. map_zoom m = z) ms))))"
    using estimate_map_images(4) [OF m i] by blast
  from g e d1 d2 v
  show "\<exists>zs est. get_zoom_levels conn MapImages = Inr zs
         \<and> estimate_zoom_sizes_bytes conn MapImages = Inr est
         \<and> dom est = {z \<in> set zs. \<exists>m \<in> set ms. map_zoom m = z
                                     \<and> map_tile_id m \<in> image_tile_id ` set imgs}
         \<and> ((\<forall>m \<in> set ms. map_tile_id m \<in> image_tile_id ` set imgs) \<longrightarrow> dom est = set zs)
         \<and> (\<forall>z \<in> dom est. est z =
              Some (sum_list (concat (map (\<lambda>m. map (\<lambda>i. blob_bytes (image_data i))
                        (filter (\<lambda>i. image_tile_id i = map_tile_id m) imgs))
                 (filter (\<lambda>m. map_zoom m = z) ms)))))"
    by blast
next
  show "blob_bytes None = 0" by (simp add: blob_bytes_def)
qed

theorem estimate_entries_witness:
  "tiles_tbl (db (connect_ro example_estimate_archive))
     = Some [(0, 0, 0, Some [1, 2]), (0, 1, 0, None), (1, 0, 0, Some [7])]
   \<and> get_zoom_levels (connect_ro example_estimate_archive) Tiles = Inr [0, 1]
   \<and> (\<exists>est. estimate_zoom_sizes_bytes (connect_ro example_estimate_archive) Tiles = Inr est
        \<and> dom est = {0, 1} \<and> est 0 = Some 2 \<and> est 1 = Some 1)
   \<and> get_zoom_levels (connect_ro example_estimate_archive) MapImages = Inr [0, 1]
   \<and> (\<exists>est. estimate_zoom_sizes_bytes (connect_ro example_estimate_archive) MapImages = Inr est
        \<and> dom est = {0, 1} \<and> est 0 = Some 6 \<and> est 1 = Some 0)"
proof -
  let ?c = "connect_ro example_estimate_archive"
  let ?rows = "[(0, 0, 0, Some [1, 2]), (0, 1, 0, None), (1, 0, 0, Some [7])] :: tiles_row list"
  let ?ms = "[(0, 0, 0, ''a''), (0, 1, 0, ''a''), (1, 0, 0, ''b'')] :: map_row list"
  let ?imgs = "[(''a'', Some [1, 2, 3]), (''b'', None)] :: images_row list"
  have t: "tiles_tbl (db ?c) = Some ?rows"
    by (simp add: connect_ro_def example_estimate_archive_def)
  have mi: "map_tbl (db ?c) = Some ?ms \<and> images_tbl (db ?c) = Some ?imgs"
    by (simp add: connect_ro_def example_estimate_archive_def)
  have gt: "get_zoom_levels ?c Tiles = Inr [0, 1]"
    by (simp add: get_zoom_levels_def connect_ro_def example_estimate_archive_def tile_zoom_def)
  have gm: "get_zoom_levels ?c MapImages = Inr [0, 1]"
    by (simp add: get_zoom_levels_def connect_ro_def example_estimate_archive_def map_zoom_def)
  note e = estimate_entries [of ?c ?rows ?ms ?imgs]
  from e t obtain zs est where te:
    "get_zoom_levels ?c Tiles = Inr zs" "estimate_zoom_sizes_bytes ?c Tiles = Inr est"
    "dom est = set zs"
    "\<forall>z \<in> set zs. est z = Some (sum_list (map (\<lambda>r. blob_bytes (tile_data r))
                                (filter (\<lambda>r. tile_zoom r = z) ?rows)))"
    by blast
  from te(1) gt have zs: "zs = [0, 1]" by simp
  have tv: "dom est = {0, 1}" "est 0 = Some 2" "est 1 = Some 1"
    using te(3,4) unfolding zs
    by (auto simp: blob_bytes_def tile_data_def tile_zoom_def)
  from e mi obtain zs' est' where me:
    "get_zoom_levels ?c MapImages = Inr zs'" "estimate_zoom_sizes_bytes ?c MapImages = Inr est'"
    "(\<forall>m \<in> set ?ms. map_tile_id m \<in> image_tile_id ` set ?imgs) \<longrightarrow> dom est' = set zs'"
    "\<forall>z \<in> dom est'. est' z =
              Some (sum_list (concat (map (\<lambda>m. map (\<lambda>i. blob_bytes (image_data i))
                        (filter (\<lambda>i. image_tile_id i = map_tile_id m) ?imgs))
                 (filter (\<lambda>m. map_zoom m = z) ?ms))))"
    by blast
  from me(1) gm have zs': "zs' = [0, 1]" by simp
  have "\<forall>m \<in> set ?ms. map_tile_id m \<in> image_tile_id ` set ?imgs"
    by (simp add: map_tile_id_def image_tile_id_def)
  with me(3) have md: "dom est' = {0, 1}"
    unfolding zs' by auto
  with me(4) have mv: "est' 0 = Some 6" "est' 1 = Some 0"
    by (simp_all add: blob_bytes_def image_data_def image_tile_id_def map_tile_id_def map_zoom_def)
  from t gt gm te(2) tv me(2) md mv show ?thesis by blast
qed

theorem estimate_missing_level_counterexample:
  "get_zoom_levels (connect_ro example_dangling_archive) MapImages = Inr [0]
   \<and> estimate_zoom_sizes_bytes (connect_ro example_dangling_archive) MapImages = Inr Map.empty"
  by (simp add: get_zoom_levels_def estimate_zoom_sizes_bytes_def connect_ro_def
      example_dangling_archive_def map_zoom_def map_join_images_def group_sums_def
      bytes_dict_def)

subsection \<open>The writers up to the first explicit transaction\<close>

lemma fresh_copy_metadata_aux:
  "metadata_tbl (db dst) = Some old \<Longrightarrow> in_transaction dst \<Longrightarrow>
   insert_metadata_rows rows dst =
     Inr (dst\<lparr>db := (db dst)\<lparr>metadata_tbl := Some (old @ rows)\<rparr>\<rparr>)"
proof (induction rows arbitrary: dst old)
  case Nil
  then show ?case by simp
next
  case (Cons row rows)
  let ?d = "begin_implicit (dst\<lparr>db := (db dst)\<lparr>metadata_tbl := Some (old @ [row])\<rparr>\<rparr>)"
  have step: "execute_insert_metadata dst row = Inr ?d"
    using Cons.prems by (simp add: execute_insert_metadata_def)
  have "insert_metadata_rows rows ?d =
      Inr (?d\<lparr>db := (db ?d)\<lparr>metadata_tbl := Some ((old @ [row]) @ rows)\<rparr>\<rparr>)"
    by (rule Cons.IH) (simp_all add: begin_implicit_def)
  with step Cons.prems show ?case
    by (simp add: bind_result_def begin_implicit_def)
qed

lemma copy_metadata_fresh:
  "copy_metadata (connect_ro src_db) (connect_rw empty_database) =
     Inr \<lparr>db = empty_database\<lparr>metadata_tbl := Some (source_metadata src_db)\<rparr>,
          in_transaction = True\<rparr>"
proof (cases "metadata_tbl src_db")
  case None
  then show ?thesis
    by (simp add: copy_metadata_def bind_result_def execute_create_metadata_def
        execute_delete_metadata_def begin_implicit_def table_exists_def connect_ro_def
        connect_rw_def empty_database_def source_metadata_def)
next
  case (Some rows)
  let ?d = "\<lparr>db = empty_database\<lparr>metadata_tbl := Some []\<rparr>, in_transaction = True\<rparr>"
  have "insert_metadata_rows rows ?d =
      Inr (?d\<lparr>db := (db ?d)\<lparr>metadata_tbl := Some ([] @ rows)\<rparr>\<rparr>)"
    by (rule fresh_copy_metadata_aux) simp_all
  with Some show ?thesis
    by (simp add: copy_metadata_def bind_result_def execute_create_metadata_def
        execute_delete_metadata_def begin_implicit_def table_exists_def connect_ro_def
        connect_rw_def empty_database_def source_metadata_def)
qed

lemma upsert_metadata_result:
  "metadata_tbl (db dst) = Some rows \<Longrightarrow>
   upsert_metadata dst name val =
     Inr (dst\<lparr>db := (db dst)\<lparr>metadata_tbl := Some (filter (\<lambda>r. fst r \<noteq> name) rows @ [(name, val)])\<rparr>,
              in_transaction := True\<rparr>)"
  by (simp add: upsert_metadata_def bind_result_def execute_delete_metadata_named_def
      execute_insert_metadata_def begin_implicit_def)

lemma py_min_nonempty: "zooms \<noteq> [] \<Longrightarrow> py_min zooms = Inr (Min (set zooms))"
proof (cases zooms)
  case Nil
  assume "zooms \<noteq> []"
  with Nil show ?thesis by simp
next
  case (Cons a rest)
  have "fold min rest a = Min (set (a # rest))"
    by (rule Min.set_eq_fold [symmetric])
  with Cons show ?thesis by (simp add: py_min_def)
qed

lemma py_max_nonempty: "zooms \<noteq> [] \<Longrightarrow> py_max zooms = Inr (Max (set zooms))"
proof (cases zooms)
  case Nil
  assume "zooms \<noteq> []"
  with Nil show ?thesis by simp
next
  case (Cons a rest)
  have "fold max rest a = Max (set (a # rest))"
    by (rule Max.set_eq_fold [symmetric])
  with Cons show ?thesis by (simp add: py_max_def)
qed

lemma empty_database_tables:
  "metadata_tbl empty_database = None" "tiles_tbl empty_database = None"
  "map_tbl empty_database = None" "images_tbl empty_database = None"
  by (simp_all add: empty_database_def)

lemma split_tiles_schema_prepare_result:
  assumes "zooms \<noteq> []"
  shows "split_tiles_schema_prepare src_db zooms =
     Inr \<lparr>db = empty_database\<lparr>metadata_tbl := Some (written_metadata src_db zooms),
                               tiles_tbl := Some []\<rparr>,
          in_transaction = True\<rparr>"
  using assms
  by (simp add: split_tiles_schema_prepare_def Let_def copy_metadata_fresh bind_result_def
      create_schema_tiles_def execute_create_tiles_def execute_create_tile_index_def
      py_min_nonempty py_max_nonempty upsert_metadata_result written_metadata_def
      empty_database_tables)

lemma split_map_images_schema_prepare_result:
  assumes "zooms \<noteq> []"
  shows "split_map_images_schema_prepare src_db zooms =
     Inr \<lparr>db = empty_database\<lparr>metadata_tbl := Some (written_metadata src_db zooms),
                               map_tbl := Some [], images_tbl := Some []\<rparr>,
          in_transaction = True\<rparr>"
  using assms
  by (simp add: split_map_images_schema_prepare_def Let_def copy_metadata_fresh bind_result_def
      create_schema_map_images_def execute_create_map_def execute_create_images_def
      execute_create_map_index_def
      py_min_nonempty py_max_nonempty upsert_metadata_result written_metadata_def
      empty_database_tables)

lemma split_tiles_schema_copy_in_transaction:
  "in_transaction dst \<Longrightarrow> split_tiles_schema_copy dst zooms = Inl OperationalError"
  by (simp add: split_tiles_schema_copy_def execute_begin_def bind_result_def)

lemma split_map_images_schema_copy_in_transaction:
  "in_transaction dst \<Longrightarrow> split_map_images_schema_copy dst zooms = Inl OperationalError"
  by (simp add: split_map_images_schema_copy_def execute_begin_def bind_result_def)

subsection \<open>What the writers leave\<close>

text \<open>
  C8. A writer is to leave the source's metadata with \<open>minzoom\<close> and \<open>maxzoom\<close> replaced
  by the group's bounds. The program builds exactly that table on the destination
  connection, but inside the transaction that \<^verbatim>\<open>DELETE FROM metadata\<close> opened
  implicitly; the explicit \<^verbatim>\<open>BEGIN\<close> that follows raises, so for every source and every
  non-empty group both writers end in an \<^verbatim>\<open>OperationalError\<close> before any
  \<^verbatim>\<open>commit()\<close>, and no output archive with that metadata is produced.
\<close>

theorem writers_raise_before_commit:
  assumes "zooms \<noteq> []"
  shows "(\<exists>dst. split_tiles_schema_prepare src_db zooms = Inr dst
            \<and> metadata_tbl (db dst) = Some (written_metadata src_db zooms)
            \<and> in_transaction dst
            \<and> split_tiles_schema_copy dst zooms = Inl OperationalError)
       \<and> split_tiles_schema getsize src_db zooms limit_bytes = Inl OperationalError
       \<and> (\<exists>dst. split_map_images_schema_prepare src_db zooms = Inr dst
            \<and> metadata_tbl (db dst) = Some (written_metadata src_db zooms)
            \<and> in_transaction dst
            \<and> split_map_images_schema_copy dst zooms = Inl OperationalError)
       \<and> split_map_images_schema getsize src_db zooms limit_bytes = Inl OperationalError"
proof -
  note pt = split_tiles_schema_prepare_result [OF assms, of src_db]
  note pm = split_map_images_schema_prepare_result [OF assms, of src_db]
  have "split_tiles_schema getsize src_db zooms limit_bytes = Inl OperationalError"
    by (simp add: split_tiles_schema_def pt bind_result_def
        split_tiles_schema_copy_in_transaction)
  moreover
  have "split_map_images_schema getsize src_db zooms limit_bytes = Inl OperationalError"
    by (simp add: split_map_images_schema_def pm bind_result_def
        split_map_images_schema_copy_in_transaction)
  moreover
  have "\<exists>dst. split_tiles_schema_prepare src_db zooms = Inr dst
            \<and> metadata_tbl (db dst) = Some (written_metadata src_db zooms)
            \<and> in_transaction dst
            \<and> split_tiles_schema_copy dst zooms = Inl OperationalError"
    by (simp add: pt split_tiles_schema_copy_in_transaction)
  moreover
  have "\<exists>dst. split_map_images_schema_prepare src_db zooms = Inr dst
            \<and> metadata_tbl (db dst) = Some (written_metadata src_db zooms)
            \<and> in_transaction dst
            \<and> split_map_images_schema_copy dst zooms = Inl OperationalError"
    by (simp add: pm split_map_images_schema_copy_in_transaction)
  ultimately show ?thesis by blast
qed

theorem writers_raise_before_commit_witness:
  "[0, 1] \<noteq> ([] :: int list)
   \<and> split_tiles_schema (\<lambda>d. 4096) example_tiles_archive [0, 1] 100 = Inl OperationalError
   \<and> split_map_images_schema (\<lambda>d. 4096) example_map_images_archive [0, 1] 100
       = Inl OperationalError
   \<and> written_metadata example_tiles_archive [0, 1]
       = [(''name'', ''demo''), (''minzoom'', ''0''), (''maxzoom'', ''1'')]"
proof -
  have ne: "[0, 1] \<noteq> ([] :: int list)" by simp
  have "written_metadata example_tiles_archive [0, 1]
       = [(''name'', ''demo''), (''minzoom'', ''0''), (''maxzoom'', ''1'')]"
    by (simp add: written_metadata_def source_metadata_def example_tiles_archive_def
        py_str_def digit_char_def)
  with ne writers_raise_before_commit [OF ne, of example_tiles_archive "\<lambda>d. 4096" 100]
    writers_raise_before_commit [OF ne, of example_map_images_archive "\<lambda>d. 4096" 100]
  show ?thesis by simp
qed

text \<open>
  C1. The output of \<open>split_tiles_schema\<close> is to hold exactly the source rows whose zoom
  level is in the group. On a source with one tile at zoom 0 and the group \<open>[0]\<close> the
  writer raises at its \<^verbatim>\<open>BEGIN\<close>; and the copy statement itself, run on the prepared
  destination, selects from the destination's own empty \<open>tiles\<close> table and inserts
  nothing, although the source holds a row of the group.
\<close>

theorem split_tiles_schema_copies_nothing:
  "tiles_tbl example_tiles_archive = Some [(0, 0, 0, Some [1, 2])]
   \<and> split_tiles_schema getsize example_tiles_archive [0] limit_bytes = Inl OperationalError
   \<and> bind_result (split_tiles_schema_prepare example_tiles_archive [0]) (\<lambda>dst.
       bind_result (execute_insert_tiles_select dst [0]) (\<lambda>dst.
         Inr (tiles_tbl (db dst)))) = Inr (Some [])"
proof -
  have ne: "[0] \<noteq> ([] :: int list)" by simp
  note p = split_tiles_schema_prepare_result [OF ne, of example_tiles_archive]
  have "split_tiles_schema getsize example_tiles_archive [0] limit_bytes = Inl OperationalError"
    by (simp add: split_tiles_schema_def p bind_result_def
        split_tiles_schema_copy_in_transaction)
  moreover have "bind_result (split_tiles_schema_prepare example_tiles_archive [0]) (\<lambda>dst.
       bind_result (execute_insert_tiles_select dst [0]) (\<lambda>dst.
         Inr (tiles_tbl (db dst)))) = Inr (Some [])"
    by (simp add: p bind_result_def execute_insert_tiles_select_def begin_implicit_def)
  moreover have "tiles_tbl example_tiles_archive = Some [(0, 0, 0, Some [1, 2])]"
    by (simp add: example_tiles_archive_def)
  ultimately show ?thesis by blast
qed

text \<open>
  C2. The output of \<open>split_map_images_schema\<close> is to hold every coordinate row of the
  group and exactly the images they reference. On a source with one coordinate row at
  zoom 0 and its image, and the group \<open>[0]\<close>, the writer raises at its first
  \<^verbatim>\<open>BEGIN\<close>; and the two copy statements, run on the prepared destination, read the
  destination's own empty \<open>map\<close> and \<open>images\<close> tables and insert nothing.
\<close>

theorem split_map_images_schema_copies_nothing:
  "map_tbl example_map_images_archive = Some [(0, 0, 0, ''a'')]
   \<and> images_tbl example_map_images_archive = Some [(''a'', Some [1, 2, 3])]
   \<and> split_map_images_schema getsize example_map_images_archive [0] limit_bytes
       = Inl OperationalError
   \<and> bind_result (split_map_images_schema_prepare example_map_images_archive [0]) (\<lambda>dst.
       bind_result (execute_insert_map_select dst [0]) (\<lambda>dst.
       bind_result (execute_insert_images_select dst) (\<lambda>dst.
         Inr (map_tbl (db dst), images_tbl (db dst))))) = Inr (Some [], Some [])"
proof -
  have ne: "[0] \<noteq> ([] :: int list)" by simp
  note p = split_map_images_schema_prepare_result [OF ne, of example_map_images_archive]
  have "split_map_images_schema getsize example_map_images_archive [0] limit_bytes
      = Inl OperationalError"
    by (simp add: split_map_images_schema_def p bind_result_def
        split_map_images_schema_copy_in_transaction)
  moreover
  have "bind_result (split_map_images_schema_prepare example_map_images_archive [0]) (\<lambda>dst.
       bind_result (execute_insert_map_select dst [0]) (\<lambda>dst.
       bind_result (execute_insert_images_select dst) (\<lambda>dst.
         Inr (map_tbl (db dst), images_tbl (db dst))))) = Inr (Some [], Some [])"
    by (simp add: p bind_result_def execute_insert_map_select_def
        execute_insert_images_select_def insert_or_ignore_def begin_implicit_def)
  moreover have "map_tbl example_map_images_archive = Some [(0, 0, 0, ''a'')]"
      "images_tbl example_map_images_archive = Some [(''a'', Some [1, 2, 3])]"
    by (simp_all add: example_map_images_archive_def)
  ultimately show ?thesis by blast
qed

lemma finish_after_commit:
  assumes "\<not> in_transaction dst"
  shows "split_tiles_schema_finish getsize dst limit_bytes =
           Inr (getsize (db dst),
                (if getsize (db dst) > limit_bytes
                 then [OverLimitWarning (getsize (db dst)) limit_bytes] else []),
                db dst)"
    and "split_map_images_schema_finish getsize dst limit_bytes =
           Inr (getsize (db dst),
                (if getsize (db dst) > limit_bytes
                 then [OverLimitWarning (getsize (db dst)) limit_bytes] else []),
                db dst)"
  using assms
  by (simp_all add: split_tiles_schema_finish_def split_map_images_schema_finish_def
      vacuum_and_size_def bind_result_def)



end
